theory Spec2Isabelle
  imports Complex_Main "HOL-Library.Word" "HOL-Library.Sublist"
begin

section \<open>JavaScript strings\<close>

text \<open>
  A JavaScript string is a sequence of UTF-16 code units. The templates of
  \<^verbatim>\<open>route.ts\<close> are ASCII apart from a handful of typographic characters, so a
  literal is written as the embedding \<open>str\<close> of an ASCII HOL string, with the
  non-ASCII code units spliced in by name.
\<close>

type_synonym jschar = "16 word"
type_synonym jsstring = "jschar list"

definition str :: "string \<Rightarrow> jsstring" where
  "str s = map of_char s"

abbreviation ndash :: jschar where "ndash \<equiv> 0x2013"
abbreviation rsquo :: jschar where "rsquo \<equiv> 0x2019"
abbreviation ldquo :: jschar where "ldquo \<equiv> 0x201C"
abbreviation rdquo :: jschar where "rdquo \<equiv> 0x201D"
abbreviation rarr :: jschar where "rarr \<equiv> 0x2192"

text \<open>
  \<^verbatim>\<open>String.prototype.trim\<close> removes WhiteSpace and LineTerminator code points from
  both ends: TAB, LF, VT, FF, CR, SP, NBSP, the Unicode space separators, LS, PS and
  the byte order mark.
\<close>

definition isWhiteSpace :: "jschar \<Rightarrow> bool" where
  "isWhiteSpace c \<longleftrightarrow> c \<in> {0x09, 0x0A, 0x0B, 0x0C, 0x0D, 0x20, 0xA0, 0x1680,
     0x2000, 0x2001, 0x2002, 0x2003, 0x2004, 0x2005, 0x2006, 0x2007, 0x2008, 0x2009,
     0x200A, 0x2028, 0x2029, 0x202F, 0x205F, 0x3000, 0xFEFF}"

definition trimStart :: "jsstring \<Rightarrow> jsstring" where
  "trimStart s = dropWhile isWhiteSpace s"

definition trimEnd :: "jsstring \<Rightarrow> jsstring" where
  "trimEnd s = rev (dropWhile isWhiteSpace (rev s))"

definition trim :: "jsstring \<Rightarrow> jsstring" where
  "trim s = trimEnd (trimStart s)"

text \<open>\<^verbatim>\<open>xs.filter(Boolean)\<close> on an array of strings keeps the non-empty ones.\<close>

definition filter_Boolean :: "jsstring list \<Rightarrow> jsstring list" where
  "filter_Boolean xs = filter (\<lambda>s. s \<noteq> []) xs"

text \<open>\<^verbatim>\<open>xs.join(sep)\<close>.\<close>

fun join :: "jsstring \<Rightarrow> jsstring list \<Rightarrow> jsstring" where
  "join sep [] = []"
| "join sep [x] = x"
| "join sep (x # y # ys) = x @ sep @ join sep (y # ys)"

section \<open>The Prompt Builder: \<^verbatim>\<open>buildSystemPrompt\<close>\<close>

text \<open>The template literal bound to \<^verbatim>\<open>basePersona\<close>, trimmed as in the source.\<close>

definition basePersona :: jsstring where
  \<open>basePersona = trim (concat [
     str ''\<newline>'',
     str ''You are "Junior Analyst Mentor", a confidential, senior-feeling coach for young research analysts in asset management.\<newline>'',
     str ''\<newline>'',
     str ''Your job:\<newline>'',
     str ''- Help them think more clearly.\<newline>'',
     str ''- Help them communicate more clearly.\<newline>'',
     str ''- Help them navigate expectations with PMs, teams, and clients.\<newline>'',
     str ''\<newline>'',
     str ''You speak like a thoughtful senior analyst / PM:\<newline>'',
     str ''- Direct but kind.\<newline>'',
     str ''- Concrete and structured.\<newline>'',
     str ''- No corporate jargon, no therapy-speak.\<newline>''])\<close>

text \<open>
  The template literal of \<^verbatim>\<open>caseContext\<close> is its two string chunks around the
  interpolated \<^verbatim>\<open>caseTag\<close>. The sentence is built only for a truthy \<^verbatim>\<open>caseTag\<close>, that is a
  non-empty string; \<^verbatim>\<open>null\<close>, \<^verbatim>\<open>undefined\<close> (both \<open>None\<close>) and the empty string give \<^verbatim>\<open>""\<close>.
\<close>

definition caseContext_before :: jsstring where
  \<open>caseContext_before = str ''This conversation is part of an ongoing case the analyst calls '' @ [ldquo]\<close>

definition caseContext_after :: jsstring where
  \<open>caseContext_after = [rdquo] @ str ''. Speak as a consistent mentor who remembers the general theme, even if you don'' @ [rsquo] @ str ''t recall every detail.''\<close>

definition caseContextSentence :: "jsstring \<Rightarrow> jsstring" where
  "caseContextSentence caseTag = caseContext_before @ caseTag @ caseContext_after"

definition caseContext :: "jsstring option \<Rightarrow> jsstring" where
  "caseContext caseTag =
     (case caseTag of
        None \<Rightarrow> []
      | Some t \<Rightarrow> if t = [] then [] else caseContextSentence t)"

text \<open>The \<^verbatim>\<open>modeInstructions\<close> template of the \<^verbatim>\<open>"communication_coach"\<close> case.\<close>

definition communication_coach_instructions :: jsstring where
  \<open>communication_coach_instructions = trim (concat [
     str ''\<newline>'',
     str ''You are a senior analyst / PM helping a junior polish emails, Slack messages, and IC notes.\<newline>'',
     str ''\<newline>'',
     str ''Always:\<newline>'',
     str ''- Start by showing that you understand the situation and what the junior is trying to do.\<newline>'',
     str ''- Suggest a clear structure or template they can reuse later.\<newline>'',
     str ''- Give a concrete rewritten draft or example, not just principles.\<newline>'',
     str ''- Offer 1'' @ [ndash] @ str ''2 brief tips on tone (what a PM would appreciate, and what to avoid).\<newline>'',
     str ''\<newline>'',
     str ''If they sound stressed or overwhelmed, acknowledge that first, then help them phrase their message or structure their note.\<newline>''])\<close>

text \<open>The \<^verbatim>\<open>modeInstructions\<close> template of the \<^verbatim>\<open>"pm_simulator"\<close> case.\<close>

definition pm_simulator_instructions :: jsstring where
  \<open>pm_simulator_instructions = trim (concat [
     str ''\<newline>'',
     str ''You are acting like an investment PM who is tough but fair.\<newline>'',
     str ''\<newline>'',
     str ''Always:\<newline>'',
     str ''- If they have NOT given a clear investment thesis yet, do NOT invent one. Ask 2'' @ [ndash] @ str ''3 clarifying questions that help them articulate a thesis or narrow what they want to explore.\<newline>'',
     str ''- If they HAVE given a thesis, then:\<newline>'',
     str ''  - Ask 3'' @ [ndash] @ str ''5 tough but fair questions about it.\<newline>'',
     str ''  - Focus on portfolio relevance, risk, catalysts, position sizing, and '' @ [ldquo] @ str ''what would change your mind'' @ [rdquo] @ str ''.\<newline>'',
     str ''  - Help them see how this idea fits into a portfolio and risk framework.\<newline>'',
     str ''- Keep the tone constructive; you are building their judgment, not shutting them down.\<newline>''])\<close>

text \<open>The \<^verbatim>\<open>modeInstructions\<close> template of the \<^verbatim>\<open>"workflow_helper"\<close> case.\<close>

definition workflow_helper_instructions :: jsstring where
  \<open>workflow_helper_instructions = trim (concat [
     str ''\<newline>'',
     str ''You are a calm, practical senior helping a junior structure their week and workload.\<newline>'',
     str ''\<newline>'',
     str ''Always:\<newline>'',
     str ''- Help them clarify what's actually on their plate (tasks, deadlines, stakeholders).\<newline>'',
     str ''- Distinguish '' @ [ldquo] @ str ''must do today'' @ [rdquo] @ str '' vs '' @ [ldquo] @ str ''can slip'' @ [rdquo] @ str '' based on risk and relationships.\<newline>'',
     str ''- Propose a simple schedule or plan they can realistically follow.\<newline>'',
     str ''- Suggest what they should communicate to their PM (e.g. delays, trade-offs, questions).\<newline>'',
     str ''- If they sound emotionally overwhelmed, acknowledge that and give 1'' @ [ndash] @ str ''2 small coping strategies.\<newline>'',
     str ''\<newline>'',
     str ''Always refer back explicitly to the tasks or feelings they mention.\<newline>''])\<close>

text \<open>The \<^verbatim>\<open>modeInstructions\<close> template of the \<^verbatim>\<open>"safe_qa"\<close> case.\<close>

definition safe_qa_instructions :: jsstring where
  \<open>safe_qa_instructions = trim (concat [
     str ''\<newline>'',
     str ''You are a psychologically safe mentor: someone a junior can ask the questions they are afraid to ask in real life.\<newline>'',
     str ''\<newline>'',
     str ''Always:\<newline>'',
     str ''- Normalize their feelings (anxiety, confusion, imposter syndrome).\<newline>'',
     str ''- Explain norms and expectations in plain language.\<newline>'',
     str ''- Give 1'' @ [ndash] @ str ''2 short example scripts they can actually say to a PM or colleague.\<newline>'',
     str ''- Suggest 1'' @ [ndash] @ str ''2 small, low-risk next steps they can try this week.\<newline>'',
     str ''\<newline>'',
     str ''Avoid giving specific buy/sell recommendations on individual securities.\<newline>''])\<close>

text \<open>
  The \<^verbatim>\<open>switch (mode)\<close>: the case labels are compared with \<^verbatim>\<open>===\<close>; the
  \<^verbatim>\<open>"safe_qa"\<close> label shares its body with \<^verbatim>\<open>default\<close>. At run time the mode is
  whatever string the request carried, so it is a \<open>jsstring\<close> here.
\<close>

definition modeInstructions :: "jsstring \<Rightarrow> jsstring" where
  "modeInstructions mode =
     (if mode = str ''communication_coach'' then communication_coach_instructions
      else if mode = str ''pm_simulator'' then pm_simulator_instructions
      else if mode = str ''workflow_helper'' then workflow_helper_instructions
      else safe_qa_instructions)"

text \<open>The directive chosen when \<^verbatim>\<open>pmLens\<close> is true.\<close>

definition pmLens_on_instructions :: jsstring where
  \<open>pmLens_on_instructions = trim (concat [
     str ''\<newline>'',
     str ''IMPORTANT '' @ [ndash] @ str '' OUTPUT STRUCTURE WHEN PM LENS = ON:\<newline>'',
     str ''\<newline>'',
     str ''1) First, write your normal mentor answer under a heading:\<newline>'',
     str ''"Mentor view:"\<newline>'',
     str ''Then give your advice as a short, structured response (paragraphs and/or bullets).\<newline>'',
     str ''\<newline>'',
     str ''2) THEN, ALWAYS add a separate section starting EXACTLY with this line:\<newline>'',
     str ''"If I were your PM reading this, here'' @ [rsquo] @ str ''s what I'' @ [rsquo] @ str ''d infer:"\<newline>'',
     str ''Under this line, write 2'' @ [ndash] @ str ''4 bullet points describing what the PM might conclude about the analyst'' @ [rsquo] @ str ''s:\<newline>'',
     str ''- judgment,\<newline>'',
     str ''- communication,\<newline>'',
     str ''- reliability and follow-through.\<newline>'',
     str ''\<newline>'',
     str ''Be kind but honest. Focus on signals and perceptions, not on shaming the analyst.\<newline>'',
     str ''Do NOT skip this block when PM lens is on.\<newline>''])\<close>

text \<open>The directive chosen when \<^verbatim>\<open>pmLens\<close> is false.\<close>

definition pmLens_off_instructions :: jsstring where
  \<open>pmLens_off_instructions = trim (concat [
     str ''\<newline>'',
     str ''IMPORTANT '' @ [ndash] @ str '' OUTPUT STRUCTURE WHEN PM LENS = OFF:\<newline>'',
     str ''\<newline>'',
     str ''- Only give your normal mentor answer.\<newline>'',
     str ''- DO NOT include any section that starts with "If I were your PM reading this".\<newline>'',
     str ''- DO NOT guess explicitly what the PM would infer. Just give guidance to the junior.\<newline>''])\<close>

definition pmLensInstructions :: "bool \<Rightarrow> jsstring" where
  "pmLensInstructions pmLens =
     (if pmLens then pmLens_on_instructions else pmLens_off_instructions)"

definition buildSystemPrompt :: "jsstring \<Rightarrow> bool \<Rightarrow> jsstring option \<Rightarrow> jsstring" where
  "buildSystemPrompt mode pmLens caseTag =
     trim (join (str ''\<newline>'')
       (filter_Boolean
         [basePersona, [], caseContext caseTag, [], modeInstructions mode, [],
          pmLensInstructions pmLens]))"

section \<open>The Completion Gateway: \<^verbatim>\<open>POST\<close>\<close>

text \<open>
  \<^verbatim>\<open>ClientMessage\<close>, the \<^verbatim>\<open>ModelMessage\<close> objects handed to the provider and the
  page's \<^verbatim>\<open>ChatMessage\<close> all have the shape \<^verbatim>\<open>{role, content}\<close>.
\<close>

datatype Role = user | assistant

record ClientMessage =
  role :: Role
  content :: jsstring

type_synonym ModelMessage = ClientMessage
type_synonym ChatMessage = ClientMessage

text \<open>
  A thrown value is an \<^verbatim>\<open>Error\<close> instance carrying its \<^verbatim>\<open>message\<close>, or anything
  else (\<^verbatim>\<open>err instanceof Error\<close> is false).
\<close>

datatype thrown = ErrorInstance jsstring | OtherValue

text \<open>
  The parsed request body. \<^verbatim>\<open>mode\<close> is \<open>None\<close> when the field is absent or
  \<^verbatim>\<open>null\<close>, and any string otherwise; \<^verbatim>\<open>messages\<close> is an array of messages or
  something that \<^verbatim>\<open>Array.isArray\<close> rejects (absent included); \<^verbatim>\<open>pmLens\<close> and
  \<^verbatim>\<open>caseTag\<close> are optional.
\<close>

datatype messages_value = NotAnArray | ArrayOf "ClientMessage list"

record MentorRequestBody =
  mode :: "jsstring option"
  messages :: messages_value
  pmLens :: "bool option"
  caseTag :: "jsstring option"

text \<open>
  \<^verbatim>\<open>await req.json()\<close> throws (the body is not JSON), or yields the JSON value
  \<^verbatim>\<open>null\<close>, or yields a value whose fields can be read. Destructuring \<^verbatim>\<open>null\<close>
  throws a \<^verbatim>\<open>TypeError\<close> inside the \<^verbatim>\<open>try\<close>; its message is the engine's, and is the
  argument of \<open>JsonNull\<close>.
\<close>

datatype json_outcome = JsonThrows thrown | JsonNull jsstring | JsonBody MentorRequestBody

text \<open>
  The argument object of \<^verbatim>\<open>generateText\<close>; its \<^verbatim>\<open>messages\<close> property is the field
  \<open>chatMessages\<close>. The call returns the generated text or throws.
\<close>

record GenerateTextArgs =
  model :: jsstring
  system :: jsstring
  chatMessages :: "ModelMessage list"
  temperature :: rat
  maxOutputTokens :: nat

datatype generate_outcome = Text jsstring | Throws thrown

text \<open>
  What the handler does besides answering, in order: logging with
  \<^verbatim>\<open>console.error\<close>, reading the body, calling the provider.
\<close>

datatype effect =
    ConsoleError jsstring "thrown option"
  | ReqJson
  | GenerateText GenerateTextArgs

text \<open>
  A response is its status and the properties of its JSON body, in order.
  \<^verbatim>\<open>NextResponse.json(body, init)\<close> answers 200 unless \<^verbatim>\<open>init\<close> sets a status.
\<close>

record Response =
  status :: nat
  body :: "(string \<times> jsstring) list"

definition NextResponse_json :: "(string \<times> jsstring) list \<Rightarrow> nat option \<Rightarrow> Response" where
  "NextResponse_json b init =
     \<lparr>status = (case init of None \<Rightarrow> 200 | Some s \<Rightarrow> s), body = b\<rparr>"

text \<open>The \<^verbatim>\<open>catch\<close> block of \<^verbatim>\<open>POST\<close>.\<close>

definition catch_block :: "thrown \<Rightarrow> Response \<times> effect list" where
  "catch_block err =
     (let message = (case err of
                       ErrorInstance msg \<Rightarrow> msg
                     | OtherValue \<Rightarrow> str ''Unexpected server error'')
      in (NextResponse_json [(''error'', message)] (Some 500),
          [ConsoleError (str ''Error in /api/mentor:'') (Some err)]))"

text \<open>
  \<^verbatim>\<open>POST\<close>, given the value of \<^verbatim>\<open>process.env.GROQ_API_KEY\<close>, the provider and
  the outcome that \<^verbatim>\<open>req.json()\<close> has for this request. It returns the response and
  the effects performed. A string is falsy exactly when it is absent or empty.
\<close>

definition POST ::
  "jsstring option \<Rightarrow> (GenerateTextArgs \<Rightarrow> generate_outcome) \<Rightarrow> json_outcome
     \<Rightarrow> Response \<times> effect list" where
  \<open>POST GROQ_API_KEY generateText req_json =
     (if GROQ_API_KEY = None \<or> GROQ_API_KEY = Some [] then
        (NextResponse_json
           [(''error'', str ''GROQ_API_KEY is not set. Locally, set it in .env.local. On Vercel, set it in Project '' @ [rarr] @ str '' Settings '' @ [rarr] @ str '' Environment Variables.'')]
           (Some 500),
         [ConsoleError (str ''Missing GROQ_API_KEY env var'') None])
      else
        (case req_json of
           JsonThrows err \<Rightarrow>
             (fst (catch_block err), ReqJson # snd (catch_block err))
         | JsonNull msg \<Rightarrow>
             (fst (catch_block (ErrorInstance msg)),
              ReqJson # snd (catch_block (ErrorInstance msg)))
         | JsonBody b \<Rightarrow>
             (let bad_request =
                    (NextResponse_json
                       [(''error'', str ''Missing or invalid 'mode' or 'messages' in request body'')]
                       (Some 400),
                     [ReqJson])
              in case (mode b, messages b) of
                   (Some m, ArrayOf ms) \<Rightarrow>
                     if m = [] \<or> length ms = 0 then bad_request
                     else
                       (let lens = (case pmLens b of None \<Rightarrow> False | Some v \<Rightarrow> v);
                            sys = buildSystemPrompt m lens (caseTag b);
                            msgs = map (\<lambda>x. \<lparr>role = role x, content = content x\<rparr>) ms;
                            args = \<lparr>model = str ''llama-3.3-70b-versatile'',
                                    system = sys,
                                    chatMessages = msgs,
                                    temperature = 4 / 10,
                                    maxOutputTokens = 800\<rparr>
                        in case generateText args of
                             Text text \<Rightarrow>
                               (NextResponse_json [(''answer'', text)] None,
                                [ReqJson, GenerateText args])
                           | Throws err \<Rightarrow>
                               (fst (catch_block err),
                                [ReqJson, GenerateText args] @ snd (catch_block err)))
                 | _ \<Rightarrow> bad_request)))\<close>

section \<open>The skills path: \<^verbatim>\<open>generateSkillsPath\<close>\<close>

text \<open>
  The scores object always has its five keys in the order of its initial value
  (updates spread the previous object), which is the order \<^verbatim>\<open>Object.entries\<close>
  lists them in.
\<close>

record SkillsScores =
  data :: int
  modeling :: int
  communication :: int
  "judgment" :: int
  time :: int

definition Object_entries :: "SkillsScores \<Rightarrow> (jsstring \<times> int) list" where
  "Object_entries scores =
     [(str ''data'', data scores),
      (str ''modeling'', modeling scores),
      (str ''communication'', communication scores),
      (str ''judgment'', judgment scores),
      (str ''time'', time scores)]"

definition SKILLS :: "(jsstring \<times> jsstring) list" where
  \<open>SKILLS =
     [(str ''data'', str ''Data work (pulling, cleaning, basic analysis)''),
      (str ''modeling'', str ''Modeling (Excel, valuations, scenarios)''),
      (str ''communication'', str ''Communication (emails, IC notes, PM updates)''),
      (str ''judgment'', str ''Investment judgment (sizing, catalysts, risk thinking)''),
      (str ''time'', str ''Time & workflow management'')]\<close>

record SkillsPathStep =
  week :: nat
  label :: jsstring
  description :: jsstring

record SkillsPath =
  steps :: "SkillsPathStep list"
  generatedAt :: jsstring

text \<open>
  The entries are sorted by score, lowest first; the sort is stable, as
  \<^verbatim>\<open>Array.prototype.sort\<close> is. The first two are mapped to their labels
  (\<^verbatim>\<open>SKILLS.find(...)?.label ?? id\<close>).
\<close>

definition weakestLabels :: "SkillsScores \<Rightarrow> jsstring list" where
  "weakestLabels scores =
     map (\<lambda>(id, _). case find (\<lambda>s. fst s = id) SKILLS of
                       Some s \<Rightarrow> snd s
                     | None \<Rightarrow> id)
       (take 2 (sort_key snd (Object_entries scores)))"

text \<open>
  \<^verbatim>\<open>generateSkillsPath\<close>; \<open>now\<close> is \<^verbatim>\<open>new Date().toISOString()\<close>. Only
  \<^verbatim>\<open>weakestLabels[0]\<close> is interpolated into a description.
\<close>

definition generateSkillsPath :: "SkillsScores \<Rightarrow> jsstring \<Rightarrow> SkillsPath" where
  \<open>generateSkillsPath scores now =
     \<lparr>steps =
        [\<lparr>week = 1,
          label = str ''Communication Coach'',
          description =
            str ''Focus on communication and soft skills, especially around "'' @
            (case weakestLabels scores of [] \<Rightarrow> str ''undefined'' | l # _ \<Rightarrow> l) @
            str ''". Aim for ~3 real emails or updates this week using Communication Coach.''\<rparr>,
         \<lparr>week = 2,
          label = str ''PM Simulator'',
          description =
            str ''Pick ONE investment idea and run 2 deeper PM Simulator sessions to pressure-test the thesis like an investment committee would.''\<rparr>,
         \<lparr>week = 3,
          label = str ''Workflow Helper'',
          description =
            str ''Use Workflow Helper to structure a full week: daily tasks, research blocks, and check-ins with your PM around that same idea.''\<rparr>],
      generatedAt = now\<rparr>\<close>

section \<open>The chat page: \<^verbatim>\<open>handleSend\<close>\<close>

datatype MentorMode = communication_coach | pm_simulator | workflow_helper | safe_qa

text \<open>
  The state of \<^verbatim>\<open>HomePage\<close> that \<^verbatim>\<open>handleSend\<close> reads or writes. The state variable
  \<^verbatim>\<open>mode\<close> is the field \<open>currentMode\<close>. \<^verbatim>\<open>histories\<close> maps a mode to its transcript.
\<close>

record HomePageState =
  currentMode :: MentorMode
  histories :: "MentorMode \<rightharpoonup> ChatMessage list"
  input :: jsstring
  loading :: bool
  errorMsg :: jsstring
  skillsPath :: "SkillsPath option"
  interactionCount :: nat
  checkInPrompt :: "jsstring option"

text \<open>
  What \<^verbatim>\<open>fetch\<close> and \<^verbatim>\<open>res.json()\<close> give: an exception, a response that is not
  \<^verbatim>\<open>ok\<close> with its \<^verbatim>\<open>data.error\<close>, or an \<^verbatim>\<open>ok\<close> response with its \<^verbatim>\<open>data.answer\<close>.
\<close>

datatype fetch_outcome =
    FetchThrows
  | NotOk "jsstring option"
  | Ok jsstring

text \<open>
  \<^verbatim>\<open>handleSend\<close> runs up to its \<^verbatim>\<open>await\<close> on the rendered state, and keeps the
  values of that render (\<^verbatim>\<open>mode\<close>, \<^verbatim>\<open>newHistory\<close>, \<^verbatim>\<open>skillsPath\<close>) for the rest.
\<close>

record SendClosure =
  closure_mode :: MentorMode
  closure_newHistory :: "ChatMessage list"
  closure_skillsPath :: "SkillsPath option"

definition handleSend_begin :: "HomePageState \<Rightarrow> HomePageState \<times> SendClosure option" where
  "handleSend_begin s =
     (let trimmed = trim (input s) in
      if trimmed = [] \<or> loading s then (s, None)
      else
        (let currentMessages = (case histories s (currentMode s) of None \<Rightarrow> [] | Some h \<Rightarrow> h);
             userMessage = \<lparr>role = user, content = trimmed\<rparr>;
             newHistory = currentMessages @ [userMessage]
         in (s\<lparr>histories := (histories s)(currentMode s \<mapsto> newHistory),
               input := [],
               loading := True,
               errorMsg := []\<rparr>,
             Some \<lparr>closure_mode = currentMode s,
                   closure_newHistory = newHistory,
                   closure_skillsPath = skillsPath s\<rparr>)))"

text \<open>
  The rest of \<^verbatim>\<open>handleSend\<close>, once the request has settled. The state setters
  are given updater functions, so they act on the state \<open>prev\<close> of that moment.
\<close>

definition handleSend_settle :: "SendClosure \<Rightarrow> fetch_outcome \<Rightarrow> HomePageState \<Rightarrow> HomePageState" where
  \<open>handleSend_settle c res prev =
     (let after =
        (case res of
           FetchThrows \<Rightarrow> prev\<lparr>errorMsg := str ''Network error''\<rparr>
         | NotOk e \<Rightarrow>
             prev\<lparr>errorMsg :=
               (case e of
                  None \<Rightarrow> str ''Request failed''
                | Some msg \<Rightarrow> if msg = [] then str ''Request failed'' else msg)\<rparr>
         | Ok answer \<Rightarrow>
             (let reply = \<lparr>role = assistant, content = answer\<rparr>;
                  next = interactionCount prev + 1
              in prev\<lparr>histories := (histories prev)(closure_mode c \<mapsto> closure_newHistory c @ [reply]),
                      interactionCount := next,
                      checkInPrompt :=
                        (case closure_skillsPath c of
                           None \<Rightarrow> checkInPrompt prev
                         | Some p \<Rightarrow>
                             if next mod 5 = 0 then
                               Some (str ''Quick check-in on '' @
                                     (case steps p of
                                        [] \<Rightarrow> str ''your main focus area''
                                      | st # _ \<Rightarrow> label st) @
                                     str '': since we started, what has changed, and where are you still stuck?'')
                             else checkInPrompt prev)\<rparr>))
      in after\<lparr>loading := False\<rparr>)\<close>

definition handleSend :: "HomePageState \<Rightarrow> fetch_outcome \<Rightarrow> HomePageState" where
  "handleSend s res =
     (case handleSend_begin s of
        (s', None) \<Rightarrow> s'
      | (s', Some c) \<Rightarrow> handleSend_settle c res s')"

section \<open>Auxiliary notions\<close>

text \<open>\<open>has_pair a b xs\<close>: the element \<open>a\<close> is directly followed by \<open>b\<close> somewhere in \<open>xs\<close>.\<close>

fun has_pair :: "'a \<Rightarrow> 'a \<Rightarrow> 'a list \<Rightarrow> bool" where
  "has_pair a b (x # y # ys) = (x = a \<and> y = b \<or> has_pair a b (y # ys))"
| "has_pair a b [x] = False"
| "has_pair a b [] = False"

section \<open>Trimming and substrings\<close>

lemma trim_id:
  assumes "s \<noteq> []" "\<not> isWhiteSpace (hd s)" "\<not> isWhiteSpace (last s)"
  shows "trim s = s"
proof -
  from assms have 1: "trimStart s = s"
    by (cases s) (simp_all add: trimStart_def)
  from assms have "dropWhile isWhiteSpace (rev s) = rev s"
    by (cases "rev s") (simp_all add: last_rev hd_rev)
  then show ?thesis
    by (simp add: trim_def 1 trimEnd_def)
qed

lemma rev_drop_take:
  "xs = rev (dropWhile P (rev xs)) @ rev (takeWhile P (rev xs))"
proof -
  have "rev (rev xs) = rev (takeWhile P (rev xs) @ dropWhile P (rev xs))"
    by (simp only: takeWhile_dropWhile_id)
  then show ?thesis
    by (simp only: rev_rev_ident rev_append)
qed

text \<open>Trimming only removes white space, from the two ends.\<close>

lemma trim_decomp:
  "\<exists>p q. s = p @ trim s @ q \<and> (\<forall>c\<in>set p. isWhiteSpace c) \<and> (\<forall>c\<in>set q. isWhiteSpace c)"
proof -
  let ?p = "takeWhile isWhiteSpace s"
  let ?m = "dropWhile isWhiteSpace s"
  let ?q = "rev (takeWhile isWhiteSpace (rev ?m))"
  have m: "?m = trim s @ ?q"
    unfolding trim_def trimEnd_def trimStart_def by (rule rev_drop_take)
  have "s = ?p @ ?m" by simp
  with m have "s = ?p @ trim s @ ?q" by simp
  moreover have "\<forall>c\<in>set ?p. isWhiteSpace c"
    by (auto dest: set_takeWhileD)
  moreover have "\<forall>c\<in>set ?q. isWhiteSpace c"
    by (auto dest: set_takeWhileD)
  ultimately show ?thesis by blast
qed

lemma trim_ends:
  assumes "trim s \<noteq> []"
  shows "\<not> isWhiteSpace (hd (trim s))" "\<not> isWhiteSpace (last (trim s))"
proof -
  let ?m = "dropWhile isWhiteSpace s"
  let ?r = "dropWhile isWhiteSpace (rev ?m)"
  have t: "trim s = rev ?r" by (simp add: trim_def trimEnd_def trimStart_def)
  with assms have r: "?r \<noteq> []" by simp
  then have "\<not> isWhiteSpace (hd ?r)" by (rule hd_dropWhile)
  with r show "\<not> isWhiteSpace (last (trim s))" by (simp add: t last_rev)
  have m: "?m \<noteq> []"
    using r by (metis dropWhile.simps(1) rev.simps(1))
  then have hm: "\<not> isWhiteSpace (hd ?m)" by (rule hd_dropWhile)
  have "?m = trim s @ rev (takeWhile isWhiteSpace (rev ?m))"
    unfolding trim_def trimEnd_def trimStart_def by (rule rev_drop_take)
  with assms have "hd ?m = hd (trim s)" by (metis hd_append2)
  with hm show "\<not> isWhiteSpace (hd (trim s))" by simp
qed

lemma set_trim_subset: "set (trim s) \<subseteq> set s"
  using trim_decomp [of s] by (metis Un_upper1 Un_upper2 set_append subset_trans)

lemma set_trim_mem: "c \<in> set s \<Longrightarrow> \<not> isWhiteSpace c \<Longrightarrow> c \<in> set (trim s)"
  using trim_decomp [of s] by (metis Un_iff set_append)

lemma has_pair_sublist: "has_pair a b xs \<longleftrightarrow> sublist [a, b] xs"
proof (induction a b xs rule: has_pair.induct)
  case (1 a b x y ys)
  then show ?case by (auto simp: sublist_Cons_right)
next
  case (2 a b x)
  then show ?case by (auto simp: sublist_Cons_right)
next
  case (3 a b)
  then show ?case by simp
qed

lemma has_pair_set: "has_pair a b xs \<Longrightarrow> a \<in> set xs \<and> b \<in> set xs"
  using set_mono_sublist [of "[a, b]" xs] by (simp add: has_pair_sublist)

lemma has_pair_mono: "has_pair a b xs \<Longrightarrow> sublist xs ys \<Longrightarrow> has_pair a b ys"
  unfolding has_pair_sublist by (rule sublist_order.order_trans)

text \<open>An occurrence of \<open>xs\<close> cannot run across an element that \<open>xs\<close> does not have.\<close>

lemma sublist_split_at:
  assumes "c \<notin> set xs"
  shows "sublist xs (ls @ c # rs) \<longleftrightarrow> sublist xs ls \<or> sublist xs rs"
proof
  assume "sublist xs (ls @ c # rs)"
  then consider "sublist xs ls" | "sublist xs (c # rs)"
    | xs1 xs2 where "xs = xs1 @ xs2" "suffix xs1 ls" "prefix xs2 (c # rs)"
    unfolding sublist_append by blast
  then show "sublist xs ls \<or> sublist xs rs"
  proof cases
    case 1
    then show ?thesis by simp
  next
    case 2
    with assms show ?thesis
      by (auto simp: sublist_Cons_right prefix_Cons)
  next
    case 3
    with assms have "xs2 = []"
      by (auto simp: prefix_Cons)
    with 3 show ?thesis by auto
  qed
next
  assume "sublist xs ls \<or> sublist xs rs"
  then show "sublist xs (ls @ c # rs)"
    by (auto simp: sublist_append sublist_Cons_right)
qed

lemma has_pair_append:
  "has_pair a b (xs @ ys) \<longleftrightarrow>
     has_pair a b xs \<or> has_pair a b ys \<or> (xs \<noteq> [] \<and> ys \<noteq> [] \<and> last xs = a \<and> hd ys = b)"
proof (induction a b xs rule: has_pair.induct)
  case (1 a b x y ys')
  then show ?case by auto
next
  case (2 a b x)
  then show ?case by (cases ys) auto
next
  case (3 a b)
  then show ?case by simp
qed

lemma has_pair_concat:
  assumes "has_pair a b (concat ls)"
  shows "\<exists>l\<in>set ls. has_pair a b l \<or> (l \<noteq> [] \<and> last l = a)"
  using assms
proof (induction ls)
  case Nil
  then show ?case by simp
next
  case (Cons l ls)
  then show ?case by (auto simp: has_pair_append)
qed

lemma has_pair_trim:
  assumes "has_pair a b (trim s)"
  shows "has_pair a b s"
proof -
  from trim_decomp [of s] obtain p q where "s = p @ trim s @ q" by blast
  then have "sublist (trim s) s" by (metis sublist_appendI)
  with assms show ?thesis by (rule has_pair_mono)
qed

lemma has_pair_trim_keep:
  assumes "has_pair a b s" "\<not> isWhiteSpace a" "\<not> isWhiteSpace b"
  shows "has_pair a b (trim s)"
proof -
  from trim_decomp [of s] obtain p q where
    s: "s = p @ trim s @ q" and p: "\<forall>c\<in>set p. isWhiteSpace c" and q: "\<forall>c\<in>set q. isWhiteSpace c"
    by blast
  from p assms(2) have ap: "a \<notin> set p" by blast
  from q assms(3) have bq: "b \<notin> set q" by blast
  from assms(1) have "has_pair a b (p @ trim s @ q)" using s by simp
  then have "has_pair a b (trim s @ q)"
    using ap by (auto simp: has_pair_append [of a b p] dest: has_pair_set)
  then show ?thesis
    using bq by (auto simp: has_pair_append [of a b "trim s"] dest: has_pair_set)
qed

subsection \<open>Templates: a trimmed concatenation of lines\<close>

lemma template_mem:
  assumes "\<exists>l\<in>set ls. c \<in> set l" "\<not> isWhiteSpace c"
  shows "c \<in> set (trim (concat ls))"
proof -
  from assms(1) have "c \<in> set (concat ls)" by auto
  then show ?thesis using assms(2) by (rule set_trim_mem)
qed

lemma template_nonempty:
  assumes "\<exists>l\<in>set ls. c \<in> set l" "\<not> isWhiteSpace c"
  shows "trim (concat ls) \<noteq> []"
  using template_mem [OF assms] by auto

lemma template_notin:
  assumes "\<forall>l\<in>set ls. c \<notin> set l"
  shows "c \<notin> set (trim (concat ls))"
  using assms set_trim_subset [of "concat ls"] by auto

lemma template_no_pair:
  assumes "\<forall>l\<in>set ls. \<not> has_pair a b l \<and> (l = [] \<or> last l \<noteq> a)"
  shows "\<not> has_pair a b (trim (concat ls))"
  using assms has_pair_concat [of a b ls] has_pair_trim [of a b "concat ls"] by blast

lemma has_pair_concat_line:
  assumes "l \<in> set ls" "has_pair a b l"
  shows "has_pair a b (concat ls)"
proof -
  from assms(1) obtain us vs where "ls = us @ l # vs" by (meson split_list)
  then have "concat ls = concat us @ l @ concat vs" by simp
  then have "sublist l (concat ls)" by (metis sublist_appendI)
  with assms(2) show ?thesis by (rule has_pair_mono)
qed

lemma template_pair:
  assumes "\<exists>l\<in>set ls. has_pair a b l" "\<not> isWhiteSpace a" "\<not> isWhiteSpace b"
  shows "has_pair a b (trim (concat ls))"
  using assms has_pair_concat_line [of _ ls a b] has_pair_trim_keep [of a b "concat ls"] by blast

section \<open>The text of the templates\<close>

text \<open>Each template contains a full stop, so trimming leaves it non-empty.\<close>

lemma basePersona_nonempty: "basePersona \<noteq> []"
  unfolding basePersona_def
  by (rule template_nonempty [of _ "0x2E"]) (simp_all add: str_def isWhiteSpace_def)

lemma communication_coach_nonempty: "communication_coach_instructions \<noteq> []"
  unfolding communication_coach_instructions_def
  by (rule template_nonempty [of _ "0x2E"]) (simp_all add: str_def isWhiteSpace_def)

lemma pm_simulator_nonempty: "pm_simulator_instructions \<noteq> []"
  unfolding pm_simulator_instructions_def
  by (rule template_nonempty [of _ "0x2E"]) (simp_all add: str_def isWhiteSpace_def)

lemma workflow_helper_nonempty: "workflow_helper_instructions \<noteq> []"
  unfolding workflow_helper_instructions_def
  by (rule template_nonempty [of _ "0x2E"]) (simp_all add: str_def isWhiteSpace_def)

lemma safe_qa_nonempty: "safe_qa_instructions \<noteq> []"
  unfolding safe_qa_instructions_def
  by (rule template_nonempty [of _ "0x2E"]) (simp_all add: str_def isWhiteSpace_def)

lemma pmLens_on_nonempty: "pmLens_on_instructions \<noteq> []"
  unfolding pmLens_on_instructions_def
  by (rule template_nonempty [of _ "0x2E"]) (simp_all add: str_def isWhiteSpace_def)

lemma pmLens_off_nonempty: "pmLens_off_instructions \<noteq> []"
  unfolding pmLens_off_instructions_def
  by (rule template_nonempty [of _ "0x2E"]) (simp_all add: str_def isWhiteSpace_def)

lemma modeInstructions_nonempty: "modeInstructions m \<noteq> []"
  by (simp add: modeInstructions_def communication_coach_nonempty pm_simulator_nonempty
      workflow_helper_nonempty safe_qa_nonempty)

lemma pmLensInstructions_nonempty: "pmLensInstructions lens \<noteq> []"
  by (simp add: pmLensInstructions_def pmLens_on_nonempty pmLens_off_nonempty)

lemma basePersona_hd: "\<not> isWhiteSpace (hd basePersona)"
  using basePersona_nonempty unfolding basePersona_def by (rule trim_ends)

lemma pmLensInstructions_last: "\<not> isWhiteSpace (last (pmLensInstructions lens))"
proof (cases lens)
  case True
  then show ?thesis
    using pmLens_on_nonempty unfolding pmLensInstructions_def pmLens_on_instructions_def
    by (simp add: trim_ends)
next
  case False
  then show ?thesis
    using pmLens_off_nonempty unfolding pmLensInstructions_def pmLens_off_instructions_def
    by (simp add: trim_ends)
qed

section \<open>The shape of a built prompt\<close>

text \<open>
  The empty strings of the array are filtered out, so the segments are separated by
  one line feed each, and the final trim finds nothing to remove.
\<close>

lemma buildSystemPrompt_eq:
  "buildSystemPrompt m lens tag =
     basePersona @ [0x0A] @
     (if caseContext tag = [] then [] else caseContext tag @ [0x0A]) @
     modeInstructions m @ [0x0A] @ pmLensInstructions lens"
proof -
  let ?r = "basePersona @ [0x0A] @
     (if caseContext tag = [] then [] else caseContext tag @ [0x0A]) @
     modeInstructions m @ [0x0A] @ pmLensInstructions lens"
  have j: "join (str ''\<newline>'')
       (filter_Boolean
         [basePersona, [], caseContext tag, [], modeInstructions m, [],
          pmLensInstructions lens]) = ?r"
    by (simp add: filter_Boolean_def str_def basePersona_nonempty modeInstructions_nonempty
        pmLensInstructions_nonempty)
  have "hd ?r = hd basePersona"
    using basePersona_nonempty by simp
  moreover have "last ?r = last (pmLensInstructions lens)"
    using pmLensInstructions_nonempty by simp
  ultimately have "trim ?r = ?r"
    using basePersona_hd pmLensInstructions_last basePersona_nonempty
    by (intro trim_id) simp_all
  with j show ?thesis
    by (simp only: buildSystemPrompt_def)
qed

lemma caseContext_absent: "caseContext None = []" "caseContext (Some []) = []"
  by (simp_all add: caseContext_def)

lemma caseContext_present: "t \<noteq> [] \<Longrightarrow> caseContext (Some t) = caseContextSentence t"
  by (simp add: caseContext_def)

lemma caseContextSentence_nonempty: "caseContextSentence t \<noteq> []"
  by (simp add: caseContextSentence_def caseContext_before_def)

lemma sublist_base: "sublist basePersona (buildSystemPrompt m lens tag)"
  unfolding buildSystemPrompt_eq by (rule sublist_append_rightI)

lemma sublist_mode: "sublist (modeInstructions m) (buildSystemPrompt m lens tag)"
proof -
  have "buildSystemPrompt m lens tag =
      (basePersona @ [0x0A] @ (if caseContext tag = [] then [] else caseContext tag @ [0x0A]))
      @ modeInstructions m @ ([0x0A] @ pmLensInstructions lens)"
    by (simp add: buildSystemPrompt_eq)
  then show ?thesis by (simp only: sublist_appendI)
qed

lemma sublist_pmLens: "sublist (pmLensInstructions lens) (buildSystemPrompt m lens tag)"
proof -
  have "buildSystemPrompt m lens tag =
      (basePersona @ [0x0A] @ (if caseContext tag = [] then [] else caseContext tag @ [0x0A])
       @ modeInstructions m @ [0x0A]) @ pmLensInstructions lens"
    by (simp add: buildSystemPrompt_eq)
  then show ?thesis by (simp only: sublist_append_leftI)
qed

text \<open>The four instruction blocks differ: each of three capitals occurs in one block only.\<close>

lemma communication_coach_C: "0x43 \<in> set communication_coach_instructions"
  unfolding communication_coach_instructions_def
  by (rule template_mem) (simp_all add: str_def isWhiteSpace_def)

lemma pm_simulator_F: "0x46 \<in> set pm_simulator_instructions"
  unfolding pm_simulator_instructions_def
  by (rule template_mem) (simp_all add: str_def isWhiteSpace_def)

lemma workflow_helper_D: "0x44 \<in> set workflow_helper_instructions"
  unfolding workflow_helper_instructions_def
  by (rule template_mem) (simp_all add: str_def isWhiteSpace_def)

lemma pm_simulator_no_C: "0x43 \<notin> set pm_simulator_instructions"
  unfolding pm_simulator_instructions_def by (rule template_notin) (simp add: str_def)

lemma workflow_helper_no_C: "0x43 \<notin> set workflow_helper_instructions"
  unfolding workflow_helper_instructions_def by (rule template_notin) (simp add: str_def)

lemma safe_qa_no_C: "0x43 \<notin> set safe_qa_instructions"
  unfolding safe_qa_instructions_def by (rule template_notin) (simp add: str_def)

lemma workflow_helper_no_F: "0x46 \<notin> set workflow_helper_instructions"
  unfolding workflow_helper_instructions_def by (rule template_notin) (simp add: str_def)

lemma safe_qa_no_F: "0x46 \<notin> set safe_qa_instructions"
  unfolding safe_qa_instructions_def by (rule template_notin) (simp add: str_def)

lemma safe_qa_no_D: "0x44 \<notin> set safe_qa_instructions"
  unfolding safe_qa_instructions_def by (rule template_notin) (simp add: str_def)

lemma instruction_blocks_distinct:
  "distinct [communication_coach_instructions, pm_simulator_instructions,
             workflow_helper_instructions, safe_qa_instructions]"
  using communication_coach_C pm_simulator_F workflow_helper_D
    pm_simulator_no_C workflow_helper_no_C safe_qa_no_C
    workflow_helper_no_F safe_qa_no_F safe_qa_no_D
  by auto

lemma mode_names_neq:
  "str ''pm_simulator'' \<noteq> str ''communication_coach''"
  "str ''workflow_helper'' \<noteq> str ''communication_coach''"
  "str ''workflow_helper'' \<noteq> str ''pm_simulator''"
  "str ''safe_qa'' \<noteq> str ''communication_coach''"
  "str ''safe_qa'' \<noteq> str ''pm_simulator''"
  "str ''safe_qa'' \<noteq> str ''workflow_helper''"
  by (simp_all add: str_def)

lemma modeInstructions_recognized:
  "modeInstructions (str ''communication_coach'') = communication_coach_instructions"
  "modeInstructions (str ''pm_simulator'') = pm_simulator_instructions"
  "modeInstructions (str ''workflow_helper'') = workflow_helper_instructions"
  "modeInstructions (str ''safe_qa'') = safe_qa_instructions"
  by (simp_all add: modeInstructions_def mode_names_neq)

section \<open>Which characters the templates use\<close>

text \<open>
  The capital X occurs in the directive for the enabled lens (in ``EXACTLY'') and in no
  other template; the directive for the disabled lens is the only template where a
  capital F follows another (``OFF''); ``Sp'' occurs only in the closing part of the
  case sentence (``Speak''). Neither directive has a typographic double quote.
\<close>

lemma pmLens_on_X: "0x58 \<in> set pmLens_on_instructions"
  unfolding pmLens_on_instructions_def
  by (rule template_mem) (simp_all add: str_def isWhiteSpace_def)

lemma no_X:
  "0x58 \<notin> set basePersona"
  "0x58 \<notin> set communication_coach_instructions"
  "0x58 \<notin> set pm_simulator_instructions"
  "0x58 \<notin> set workflow_helper_instructions"
  "0x58 \<notin> set safe_qa_instructions"
  "0x58 \<notin> set pmLens_off_instructions"
  unfolding basePersona_def communication_coach_instructions_def pm_simulator_instructions_def
    workflow_helper_instructions_def safe_qa_instructions_def pmLens_off_instructions_def
  by (rule template_notin, simp add: str_def)+

lemma no_quotes:
  "0x201C \<notin> set pmLens_on_instructions"
  "0x201D \<notin> set pmLens_on_instructions"
  "0x201C \<notin> set pmLens_off_instructions"
  "0x201D \<notin> set pmLens_off_instructions"
  unfolding pmLens_on_instructions_def pmLens_off_instructions_def
  by (rule template_notin, simp add: str_def)+

lemma pmLens_off_FF: "has_pair 0x46 0x46 pmLens_off_instructions"
  unfolding pmLens_off_instructions_def
  by (rule template_pair) (simp_all add: str_def isWhiteSpace_def)

lemma no_FF:
  "\<not> has_pair 0x46 0x46 basePersona"
  "\<not> has_pair 0x46 0x46 communication_coach_instructions"
  "\<not> has_pair 0x46 0x46 pm_simulator_instructions"
  "\<not> has_pair 0x46 0x46 workflow_helper_instructions"
  "\<not> has_pair 0x46 0x46 safe_qa_instructions"
  "\<not> has_pair 0x46 0x46 pmLens_on_instructions"
  unfolding basePersona_def communication_coach_instructions_def pm_simulator_instructions_def
    workflow_helper_instructions_def safe_qa_instructions_def pmLens_on_instructions_def
  by (rule template_no_pair, simp add: str_def)+

lemma no_Sp:
  "\<not> has_pair 0x53 0x70 basePersona"
  "\<not> has_pair 0x53 0x70 communication_coach_instructions"
  "\<not> has_pair 0x53 0x70 pm_simulator_instructions"
  "\<not> has_pair 0x53 0x70 workflow_helper_instructions"
  "\<not> has_pair 0x53 0x70 safe_qa_instructions"
  "\<not> has_pair 0x53 0x70 pmLens_on_instructions"
  "\<not> has_pair 0x53 0x70 pmLens_off_instructions"
  unfolding basePersona_def communication_coach_instructions_def pm_simulator_instructions_def
    workflow_helper_instructions_def safe_qa_instructions_def pmLens_on_instructions_def
    pmLens_off_instructions_def
  by (rule template_no_pair, simp add: str_def)+

lemma modeInstructions_cases:
  "modeInstructions m = communication_coach_instructions \<or>
   modeInstructions m = pm_simulator_instructions \<or>
   modeInstructions m = workflow_helper_instructions \<or>
   modeInstructions m = safe_qa_instructions"
  by (simp add: modeInstructions_def)

lemma modeInstructions_chars:
  "0x58 \<notin> set (modeInstructions m)"
  "\<not> has_pair 0x46 0x46 (modeInstructions m)"
  "\<not> has_pair 0x53 0x70 (modeInstructions m)"
  using modeInstructions_cases [of m] no_X no_FF no_Sp by auto

lemma pmLensInstructions_Sp: "\<not> has_pair 0x53 0x70 (pmLensInstructions lens)"
  by (simp add: pmLensInstructions_def no_Sp)

subsection \<open>The case sentence\<close>

lemma caseContextSentence_shape:
  "caseContextSentence t =
     butlast caseContext_before @ 0x201C # t @ 0x201D # tl caseContext_after"
  by (simp add: caseContextSentence_def caseContext_before_def caseContext_after_def)

lemma caseContext_chars:
  "0x58 \<notin> set (butlast caseContext_before)"
  "0x58 \<notin> set (tl caseContext_after)"
  "\<not> has_pair 0x46 0x46 (butlast caseContext_before)"
  "\<not> has_pair 0x46 0x46 (tl caseContext_after)"
  by (simp_all add: caseContext_before_def caseContext_after_def str_def)

lemma caseContext_after_Sp: "has_pair 0x53 0x70 caseContext_after"
  by (simp add: caseContext_after_def str_def)

lemma caseContextSentence_Sp: "has_pair 0x53 0x70 (caseContextSentence t)"
proof -
  have "sublist caseContext_after (caseContextSentence t)"
    unfolding caseContextSentence_def by (metis append.assoc sublist_append_leftI)
  with caseContext_after_Sp show ?thesis by (rule has_pair_mono)
qed

lemma has_pair_sep:
  assumes "c \<noteq> a" "c \<noteq> b"
  shows "has_pair a b (xs @ c # ys) \<longleftrightarrow> has_pair a b xs \<or> has_pair a b ys"
  using assms by (simp add: has_pair_sublist sublist_split_at)

text \<open>
  An occurrence of \<open>xs\<close> in a text around the case sentence lies before the label,
  inside it or after it, when \<open>xs\<close> has none of the two quotes.
\<close>

lemma sublist_around_label:
  assumes "0x201C \<notin> set xs" "0x201D \<notin> set xs"
  shows "sublist xs (ls @ caseContextSentence t @ rs) \<longleftrightarrow>
     sublist xs (ls @ butlast caseContext_before) \<or> sublist xs t \<or>
     sublist xs (tl caseContext_after @ rs)"
proof -
  let ?L = "ls @ butlast caseContext_before"
  let ?R = "tl caseContext_after @ rs"
  have "ls @ caseContextSentence t @ rs = ?L @ 0x201C # (t @ 0x201D # ?R)"
    by (simp add: caseContextSentence_shape)
  moreover have "sublist xs (?L @ 0x201C # (t @ 0x201D # ?R)) \<longleftrightarrow>
      sublist xs ?L \<or> sublist xs (t @ 0x201D # ?R)"
    using assms(1) by (rule sublist_split_at)
  moreover have "sublist xs (t @ 0x201D # ?R) \<longleftrightarrow> sublist xs t \<or> sublist xs ?R"
    using assms(2) by (rule sublist_split_at)
  ultimately show ?thesis by (simp only:)
qed

subsection \<open>Prompts with and without a case label\<close>

lemma buildSystemPrompt_no_label:
  assumes "tag = None \<or> tag = Some []"
  shows "buildSystemPrompt m lens tag =
     basePersona @ 0x0A # modeInstructions m @ 0x0A # pmLensInstructions lens"
  using assms by (auto simp: buildSystemPrompt_eq caseContext_absent)

lemma buildSystemPrompt_label:
  assumes "t \<noteq> []"
  shows "buildSystemPrompt m lens (Some t) =
     (basePersona @ [0x0A]) @ caseContextSentence t @
     (0x0A # modeInstructions m @ 0x0A # pmLensInstructions lens)"
  using assms
  by (simp add: buildSystemPrompt_eq caseContext_present caseContextSentence_nonempty)

lemma no_label_no_Sp:
  assumes "tag = None \<or> tag = Some []"
  shows "\<not> has_pair 0x53 0x70 (buildSystemPrompt m lens tag)"
  by (simp add: buildSystemPrompt_no_label [OF assms] has_pair_sep no_Sp modeInstructions_chars
      pmLensInstructions_Sp)

text \<open>The other directive is not in the fixed text of a prompt.\<close>

lemma on_not_in_fixed:
  assumes "0x58 \<notin> set ys"
  shows "\<not> sublist pmLens_on_instructions ys"
  using assms pmLens_on_X set_mono_sublist [of pmLens_on_instructions ys] by auto

lemma off_not_in_fixed:
  assumes "\<not> has_pair 0x46 0x46 ys"
  shows "\<not> sublist pmLens_off_instructions ys"
  using assms pmLens_off_FF has_pair_mono [of "0x46" "0x46" pmLens_off_instructions ys] by auto

lemma on_in_off_prompt:
  "sublist pmLens_on_instructions (buildSystemPrompt m False tag) \<longleftrightarrow>
     (\<exists>t. tag = Some t \<and> sublist pmLens_on_instructions t)"
proof (cases "tag = None \<or> tag = Some []")
  case True
  then have "\<not> sublist pmLens_on_instructions (buildSystemPrompt m False tag)"
    by (intro on_not_in_fixed)
      (simp add: buildSystemPrompt_no_label pmLensInstructions_def no_X modeInstructions_chars)
  moreover from True have "\<not> (\<exists>t. tag = Some t \<and> sublist pmLens_on_instructions t)"
    using pmLens_on_nonempty by auto
  ultimately show ?thesis by simp
next
  case False
  then obtain t where t: "tag = Some t" "t \<noteq> []" by auto
  let ?L = "(basePersona @ [0x0A]) @ butlast caseContext_before"
  let ?R = "tl caseContext_after @ 0x0A # modeInstructions m @ 0x0A # pmLensInstructions False"
  have 1: "\<not> sublist pmLens_on_instructions ?L"
    by (intro on_not_in_fixed) (simp add: no_X caseContext_chars)
  have 2: "\<not> sublist pmLens_on_instructions ?R"
    by (intro on_not_in_fixed)
      (simp add: pmLensInstructions_def no_X modeInstructions_chars caseContext_chars)
  have "sublist pmLens_on_instructions (buildSystemPrompt m False (Some t)) \<longleftrightarrow>
      sublist pmLens_on_instructions ?L \<or> sublist pmLens_on_instructions t \<or>
      sublist pmLens_on_instructions ?R"
    unfolding buildSystemPrompt_label [OF t(2)]
    by (rule sublist_around_label) (rule no_quotes)+
  with 1 2 t show ?thesis by simp
qed

lemma off_in_on_prompt:
  "sublist pmLens_off_instructions (buildSystemPrompt m True tag) \<longleftrightarrow>
     (\<exists>t. tag = Some t \<and> sublist pmLens_off_instructions t)"
proof (cases "tag = None \<or> tag = Some []")
  case True
  then have "\<not> sublist pmLens_off_instructions (buildSystemPrompt m True tag)"
    by (intro off_not_in_fixed)
      (simp add: buildSystemPrompt_no_label pmLensInstructions_def has_pair_sep no_FF
        modeInstructions_chars)
  moreover from True have "\<not> (\<exists>t. tag = Some t \<and> sublist pmLens_off_instructions t)"
    using pmLens_off_nonempty by auto
  ultimately show ?thesis by simp
next
  case False
  then obtain t where t: "tag = Some t" "t \<noteq> []" by auto
  let ?L = "(basePersona @ [0x0A]) @ butlast caseContext_before"
  let ?R = "tl caseContext_after @ 0x0A # modeInstructions m @ 0x0A # pmLensInstructions True"
  have 1: "\<not> sublist pmLens_off_instructions ?L"
    by (intro off_not_in_fixed) (simp add: has_pair_sep no_FF caseContext_chars)
  have 2: "\<not> sublist pmLens_off_instructions ?R"
    by (intro off_not_in_fixed)
      (simp add: pmLensInstructions_def has_pair_sep no_FF modeInstructions_chars
        caseContext_chars)
  have "sublist pmLens_off_instructions (buildSystemPrompt m True (Some t)) \<longleftrightarrow>
      sublist pmLens_off_instructions ?L \<or> sublist pmLens_off_instructions t \<or>
      sublist pmLens_off_instructions ?R"
    unfolding buildSystemPrompt_label [OF t(2)]
    by (rule sublist_around_label) (rule no_quotes)+
  with 1 2 t show ?thesis by simp
qed

section \<open>The gateway's three ways out\<close>

lemma modeInstructions_default:
  assumes "m \<noteq> str ''communication_coach''" "m \<noteq> str ''pm_simulator''"
    "m \<noteq> str ''workflow_helper''"
  shows "modeInstructions m = safe_qa_instructions"
  using assms by (simp add: modeInstructions_def)

lemma POST_no_key:
  assumes "key = None \<or> key = Some []"
  shows "POST key gen req =
     (\<lparr>status = 500,
       body = [(''error'',
         str ''GROQ_API_KEY is not set. Locally, set it in .env.local. On Vercel, set it in Project '' @
         [rarr] @ str '' Settings '' @ [rarr] @ str '' Environment Variables.'')]\<rparr>,
      [ConsoleError (str ''Missing GROQ_API_KEY env var'') None])"
  using assms by (auto simp: POST_def NextResponse_json_def)

lemma POST_bad_request:
  assumes "key \<noteq> []"
    and "mode b = None \<or> mode b = Some [] \<or> messages b = NotAnArray \<or> messages b = ArrayOf []"
  shows "POST (Some key) gen (JsonBody b) =
     (\<lparr>status = 400,
       body = [(''error'', str ''Missing or invalid 'mode' or 'messages' in request body'')]\<rparr>,
      [ReqJson])"
  using assms
  by (auto simp: POST_def NextResponse_json_def Let_def split: option.splits messages_value.splits)

lemma POST_valid:
  assumes "key \<noteq> []" "mode b = Some m" "m \<noteq> []" "messages b = ArrayOf ms" "ms \<noteq> []"
    and "args = \<lparr>model = str ''llama-3.3-70b-versatile'',
                  system = buildSystemPrompt m (case pmLens b of None \<Rightarrow> False | Some v \<Rightarrow> v)
                             (caseTag b),
                  chatMessages = map (\<lambda>x. \<lparr>role = role x, content = content x\<rparr>) ms,
                  temperature = 4 / 10,
                  maxOutputTokens = 800\<rparr>"
  shows "POST (Some key) gen (JsonBody b) =
     (case gen args of
        Text answer \<Rightarrow> (\<lparr>status = 200, body = [(''answer'', answer)]\<rparr>, [ReqJson, GenerateText args])
      | Throws err \<Rightarrow>
          (\<lparr>status = 500,
            body = [(''error'', case err of ErrorInstance msg \<Rightarrow> msg
                                | OtherValue \<Rightarrow> str ''Unexpected server error'')]\<rparr>,
           [ReqJson, GenerateText args,
            ConsoleError (str ''Error in /api/mentor:'') (Some err)]))"
  using assms
  by (simp add: POST_def NextResponse_json_def catch_block_def Let_def
      split: generate_outcome.splits)

lemma POST_json_throws:
  assumes "key \<noteq> []"
  shows "POST (Some key) gen (JsonThrows err) =
     (\<lparr>status = 500,
       body = [(''error'', case err of ErrorInstance msg \<Rightarrow> msg
                           | OtherValue \<Rightarrow> str ''Unexpected server error'')]\<rparr>,
      [ReqJson, ConsoleError (str ''Error in /api/mentor:'') (Some err)])"
  using assms by (simp add: POST_def NextResponse_json_def catch_block_def)

lemma POST_json_null:
  assumes "key \<noteq> []"
  shows "POST (Some key) gen (JsonNull msg) =
     (\<lparr>status = 500, body = [(''error'', msg)]\<rparr>,
      [ReqJson, ConsoleError (str ''Error in /api/mentor:'') (Some (ErrorInstance msg))])"
  using assms by (simp add: POST_def NextResponse_json_def catch_block_def)

text \<open>Every request takes one of these ways.\<close>

lemma POST_cases:
  obtains
    (no_key) "key = None \<or> key = Some []"
  | (json_throws) k err where "key = Some k" "k \<noteq> []" "req = JsonThrows err"
  | (json_null) k msg where "key = Some k" "k \<noteq> []" "req = JsonNull msg"
  | (bad_request) k b where "key = Some k" "k \<noteq> []" "req = JsonBody b"
      "mode b = None \<or> mode b = Some [] \<or> messages b = NotAnArray \<or> messages b = ArrayOf []"
  | (valid) k b m ms where "key = Some k" "k \<noteq> []" "req = JsonBody b"
      "mode b = Some m" "m \<noteq> []" "messages b = ArrayOf ms" "ms \<noteq> []"
proof (cases key)
  case None
  then show ?thesis using no_key by simp
next
  case (Some k)
  show ?thesis
  proof (cases "k = []")
    case True
    with Some show ?thesis using no_key by simp
  next
    case False
    show ?thesis
    proof (cases req)
      case (JsonThrows err)
      with Some False show ?thesis using json_throws by simp
    next
      case (JsonNull msg)
      with Some False show ?thesis using json_null by simp
    next
      case (JsonBody b)
      show ?thesis
      proof (cases "mode b")
        case None
        with Some False JsonBody show ?thesis using bad_request by simp
      next
        case m: (Some m)
        show ?thesis
        proof (cases "messages b")
          case NotAnArray
          with Some False JsonBody show ?thesis using bad_request by simp
        next
          case (ArrayOf ms)
          show ?thesis
          proof (cases "m = [] \<or> ms = []")
            case True
            with Some False JsonBody m ArrayOf show ?thesis using bad_request [of k b] by auto
          next
            case F: False
            with Some False JsonBody m ArrayOf show ?thesis using valid [of k b m ms] by auto
          qed
        qed
      qed
    qed
  qed
qed

section \<open>The skills path\<close>

lemma generateSkillsPath_steps:
  "\<exists>d. steps (generateSkillsPath scores now) =
     [\<lparr>week = 1, label = str ''Communication Coach'', description = d\<rparr>,
      \<lparr>week = 2, label = str ''PM Simulator'',
       description = str ''Pick ONE investment idea and run 2 deeper PM Simulator sessions to pressure-test the thesis like an investment committee would.''\<rparr>,
      \<lparr>week = 3, label = str ''Workflow Helper'',
       description = str ''Use Workflow Helper to structure a full week: daily tasks, research blocks, and check-ins with your PM around that same idea.''\<rparr>]"
  by (simp add: generateSkillsPath_def)

text \<open>
  What the description of step 1 names, for any scores: the label of one skill whose
  score is the lowest.
\<close>

lemma SKILLS_label:
  assumes "e \<in> set (Object_entries scores)"
  shows "\<exists>lbl. find (\<lambda>s. fst s = fst e) SKILLS = Some (fst e, lbl)"
  using assms by (auto simp: Object_entries_def SKILLS_def str_def)

lemma sorted_entries:
  "\<exists>e1 e2 rest. sort_key snd (Object_entries scores) = e1 # e2 # rest \<and>
     e1 \<in> set (Object_entries scores) \<and>
     (\<forall>e\<in>set (Object_entries scores). snd e1 \<le> snd e)"
proof -
  let ?es = "Object_entries scores"
  let ?s = "sort_key snd ?es"
  have "length ?s = 5"
    by (simp add: Object_entries_def del: sort_key_simps)
  then obtain e1 e2 rest where s: "?s = e1 # e2 # rest"
    by (metis (no_types) length_0_conv length_Suc_conv numeral_eq_Suc pred_numeral_simps(3))
  have "set ?s = set ?es"
    by (rule set_sort)
  moreover have "sorted (map snd ?s)"
    by (rule sorted_sort_key)
  ultimately have "e1 \<in> set ?es" "\<forall>e\<in>set ?es. snd e1 \<le> snd e"
    unfolding s by auto
  with s show ?thesis by blast
qed

lemma step1_names_one_weakest:
  \<open>\<exists>id v lbl. (id, v) \<in> set (Object_entries scores) \<and>
     (\<forall>e\<in>set (Object_entries scores). v \<le> snd e) \<and>
     (id, lbl) \<in> set SKILLS \<and>
     description (hd (steps (generateSkillsPath scores now))) =
       str ''Focus on communication and soft skills, especially around "'' @ lbl @
       str ''". Aim for ~3 real emails or updates this week using Communication Coach.''\<close>
proof -
  from sorted_entries [of scores] obtain e1 e2 rest where
    s: "sort_key snd (Object_entries scores) = e1 # e2 # rest" and
    m: "e1 \<in> set (Object_entries scores)" "\<forall>e\<in>set (Object_entries scores). snd e1 \<le> snd e"
    by blast
  from SKILLS_label [OF m(1)] obtain lbl where
    l: "find (\<lambda>s. fst s = fst e1) SKILLS = Some (fst e1, lbl)" by blast
  then have "(fst e1, lbl) \<in> set SKILLS"
    by (auto simp: find_Some_iff in_set_conv_nth)
  moreover have "hd (weakestLabels scores) = lbl" "weakestLabels scores \<noteq> []"
    using l by (simp_all add: weakestLabels_def s case_prod_beta)
  then have \<open>description (hd (steps (generateSkillsPath scores now))) =
       str ''Focus on communication and soft skills, especially around "'' @ lbl @
       str ''". Aim for ~3 real emails or updates this week using Communication Coach.''\<close>
    by (cases "weakestLabels scores") (simp_all add: generateSkillsPath_def)
  ultimately show ?thesis
    using m by (metis prod.collapse)
qed

section \<open>Sending a message\<close>

lemma handleSend_begin_frame:
  assumes "m' \<noteq> currentMode s"
  shows "histories (fst (handleSend_begin s)) m' = histories s m'"
  using assms by (simp add: handleSend_begin_def Let_def)

lemma handleSend_begin_closure:
  assumes "handleSend_begin s = (s', Some c)"
  shows "closure_mode c = currentMode s"
    and "histories s' (currentMode s) = Some (closure_newHistory c)"
    and "\<exists>msg. closure_newHistory c =
           (case histories s (currentMode s) of None \<Rightarrow> [] | Some h \<Rightarrow> h) @ [msg]"
  using assms by (auto simp: handleSend_begin_def Let_def split: if_splits)

lemma handleSend_settle_frame:
  assumes "m' \<noteq> closure_mode c"
  shows "histories (handleSend_settle c res prev) m' = histories prev m'"
  using assms
  by (simp add: handleSend_settle_def Let_def split: fetch_outcome.splits option.splits)

lemma handleSend_settle_own:
  "histories (handleSend_settle c res prev) (closure_mode c) =
     (case res of
        Ok answer \<Rightarrow> Some (closure_newHistory c @ [\<lparr>role = assistant, content = answer\<rparr>])
      | _ \<Rightarrow> histories prev (closure_mode c))"
  by (simp add: handleSend_settle_def Let_def split: fetch_outcome.splits option.splits)

section \<open>The claims\<close>

text \<open>
  C1. For each of the four recognized modes, whatever the enhanced-output flag and the
  case label are, the prompt built by \<^verbatim>\<open>buildSystemPrompt\<close> contains the instruction
  block of that mode and the base persona text; the four blocks are pairwise different.
\<close>

theorem C1_recognized_modes:
  "sublist communication_coach_instructions
     (buildSystemPrompt (str ''communication_coach'') lens tag) \<and>
   sublist pm_simulator_instructions (buildSystemPrompt (str ''pm_simulator'') lens tag) \<and>
   sublist workflow_helper_instructions (buildSystemPrompt (str ''workflow_helper'') lens tag) \<and>
   sublist safe_qa_instructions (buildSystemPrompt (str ''safe_qa'') lens tag) \<and>
   sublist basePersona (buildSystemPrompt (str ''communication_coach'') lens tag) \<and>
   sublist basePersona (buildSystemPrompt (str ''pm_simulator'') lens tag) \<and>
   sublist basePersona (buildSystemPrompt (str ''workflow_helper'') lens tag) \<and>
   sublist basePersona (buildSystemPrompt (str ''safe_qa'') lens tag) \<and>
   distinct [communication_coach_instructions, pm_simulator_instructions,
             workflow_helper_instructions, safe_qa_instructions]"
  using sublist_mode [of "str ''communication_coach''" lens tag]
    sublist_mode [of "str ''pm_simulator''" lens tag]
    sublist_mode [of "str ''workflow_helper''" lens tag]
    sublist_mode [of "str ''safe_qa''" lens tag]
    sublist_base instruction_blocks_distinct
  by (simp add: modeInstructions_recognized)

text \<open>
  C2. A mode that is none of the four recognized names gets the instruction block of
  the default persona (\<^verbatim>\<open>safe_qa\<close>); \<^verbatim>\<open>buildSystemPrompt\<close> is a total function and has
  no failing path. When the credential is set, such a mode is not empty and the
  message list is not empty, the gateway does not answer with a client error: it calls
  the provider with a system prompt that contains this block, and answers 200 or, when
  the provider throws, 500.
\<close>

theorem C2_unrecognized_mode:
  assumes "m \<noteq> str ''communication_coach''" "m \<noteq> str ''pm_simulator''"
    "m \<noteq> str ''workflow_helper''" "m \<noteq> str ''safe_qa''"
  shows "sublist safe_qa_instructions (buildSystemPrompt m lens tag) \<and>
    (key \<noteq> [] \<and> m \<noteq> [] \<and> mode b = Some m \<and> messages b = ArrayOf ms \<and> ms \<noteq> [] \<longrightarrow>
       status (fst (POST (Some key) gen (JsonBody b))) \<in> {200, 500} \<and>
       (\<exists>args. GenerateText args \<in> set (snd (POST (Some key) gen (JsonBody b))) \<and>
          sublist safe_qa_instructions (system args)))"
proof -
  have block: "sublist safe_qa_instructions (buildSystemPrompt m l t)" for l t
    using sublist_mode [of m l t] assms by (simp add: modeInstructions_default)
  have "status (fst (POST (Some key) gen (JsonBody b))) \<in> {200, 500} \<and>
       (\<exists>args. GenerateText args \<in> set (snd (POST (Some key) gen (JsonBody b))) \<and>
          sublist safe_qa_instructions (system args))"
    if v: "key \<noteq> []" "m \<noteq> []" "mode b = Some m" "messages b = ArrayOf ms" "ms \<noteq> []"
  proof -
    let ?args = "\<lparr>model = str ''llama-3.3-70b-versatile'',
                  system = buildSystemPrompt m (case pmLens b of None \<Rightarrow> False | Some v \<Rightarrow> v)
                             (caseTag b),
                  chatMessages = map (\<lambda>x. \<lparr>role = role x, content = content x\<rparr>) ms,
                  temperature = 4 / 10,
                  maxOutputTokens = 800\<rparr>"
    have sys: "sublist safe_qa_instructions (system ?args)"
      using block by simp
    show ?thesis
    proof (cases "gen ?args")
      case (Text answer)
      then have "POST (Some key) gen (JsonBody b) =
          (\<lparr>status = 200, body = [(''answer'', answer)]\<rparr>, [ReqJson, GenerateText ?args])"
        using POST_valid [OF v(1) v(3) v(2) v(4) v(5) refl, of gen] by simp
      with sys show ?thesis by auto
    next
      case (Throws err)
      then have "POST (Some key) gen (JsonBody b) =
          (\<lparr>status = 500,
            body = [(''error'', case err of ErrorInstance msg \<Rightarrow> msg
                                | OtherValue \<Rightarrow> str ''Unexpected server error'')]\<rparr>,
           [ReqJson, GenerateText ?args,
            ConsoleError (str ''Error in /api/mentor:'') (Some err)])"
        using POST_valid [OF v(1) v(3) v(2) v(4) v(5) refl, of gen] by simp
      with sys show ?thesis by auto
    qed
  qed
  with block show ?thesis by blast
qed

theorem C2_unrecognized_mode_witness:
  "str ''tutor'' \<noteq> str ''communication_coach'' \<and> str ''tutor'' \<noteq> str ''pm_simulator'' \<and>
   str ''tutor'' \<noteq> str ''workflow_helper'' \<and> str ''tutor'' \<noteq> str ''safe_qa'' \<and>
   str ''tutor'' \<noteq> [] \<and>
   sublist safe_qa_instructions (buildSystemPrompt (str ''tutor'') True None) \<and>
   status (fst (POST (Some (str ''key'')) (\<lambda>_. Text (str ''ok''))
     (JsonBody \<lparr>mode = Some (str ''tutor''),
                messages = ArrayOf [\<lparr>role = user, content = str ''hi''\<rparr>],
                pmLens = Some True, caseTag = None\<rparr>))) \<in> {200, 500}"
  using C2_unrecognized_mode [where m = "str ''tutor''" and lens = True and tag = None
      and key = "str ''key''" and gen = "\<lambda>_. Text (str ''ok'')"
      and ms = "[\<lparr>role = user, content = str ''hi''\<rparr>]"
      and b = "\<lparr>mode = Some (str ''tutor''),
                messages = ArrayOf [\<lparr>role = user, content = str ''hi''\<rparr>],
                pmLens = Some True, caseTag = None\<rparr>"]
  by (simp add: str_def)

text \<open>
  C3 (as the claim states it, refuted). The case label is copied into the prompt as it
  is. With the flag off and the text of the requiring directive as the label, the
  prompt contains both directives.
\<close>

theorem C3_both_directives_counterexample:
  "sublist pmLens_on_instructions
     (buildSystemPrompt (str ''safe_qa'') False (Some pmLens_on_instructions)) \<and>
   sublist pmLens_off_instructions
     (buildSystemPrompt (str ''safe_qa'') False (Some pmLens_on_instructions))"
  using sublist_pmLens [of False "str ''safe_qa''" "Some pmLens_on_instructions"]
  by (simp add: on_in_off_prompt pmLensInstructions_def)

text \<open>
  C3 (amended). For every mode and case label: with the flag true the prompt contains
  the directive that requires the second section, with the flag false the directive
  that forbids it; and the prompt contains the other directive exactly when the
  supplied case label itself contains it. So without a label, or with a label free of
  the directives' text, a prompt never has both.
\<close>

theorem C3_directives:
  "sublist pmLens_on_instructions (buildSystemPrompt m True tag) \<and>
   sublist pmLens_off_instructions (buildSystemPrompt m False tag) \<and>
   (sublist pmLens_on_instructions (buildSystemPrompt m False tag) \<longleftrightarrow>
      (\<exists>t. tag = Some t \<and> sublist pmLens_on_instructions t)) \<and>
   (sublist pmLens_off_instructions (buildSystemPrompt m True tag) \<longleftrightarrow>
      (\<exists>t. tag = Some t \<and> sublist pmLens_off_instructions t))"
  using sublist_pmLens [of True m tag] sublist_pmLens [of False m tag]
    on_in_off_prompt [of m tag] off_in_on_prompt [of m tag]
  by (simp add: pmLensInstructions_def)

text \<open>
  C4 (the code at a failing input). With the scores data 1, modeling 2 and 3 for the
  rest, the two weakest labels are computed, ``Data work'' and ``Modeling'', but the
  description of step 1 names the first only.
\<close>

theorem C4_second_weakest_not_named:
  \<open>weakestLabels \<lparr>data = 1, modeling = 2, communication = 3, judgment = 3, time = 3\<rparr> =
     [str ''Data work (pulling, cleaning, basic analysis)'',
      str ''Modeling (Excel, valuations, scenarios)''] \<and>
   description (hd (steps (generateSkillsPath
      \<lparr>data = 1, modeling = 2, communication = 3, judgment = 3, time = 3\<rparr>
      (str ''2025-01-01T00:00:00.000Z'')))) =
     str ''Focus on communication and soft skills, especially around "Data work (pulling, cleaning, basic analysis)". Aim for ~3 real emails or updates this week using Communication Coach.'' \<and>
   \<not> sublist (str ''Modeling (Excel, valuations, scenarios)'')
     (description (hd (steps (generateSkillsPath
        \<lparr>data = 1, modeling = 2, communication = 3, judgment = 3, time = 3\<rparr>
        (str ''2025-01-01T00:00:00.000Z'')))))\<close>
proof -
  let ?sc = "\<lparr>data = 1, modeling = 2, communication = 3, judgment = 3, time = 3\<rparr>"
  have w: "weakestLabels ?sc =
     [str ''Data work (pulling, cleaning, basic analysis)'',
      str ''Modeling (Excel, valuations, scenarios)'']"
    by (simp add: weakestLabels_def Object_entries_def SKILLS_def str_def)
  have d: \<open>description (hd (steps (generateSkillsPath ?sc (str ''2025-01-01T00:00:00.000Z'')))) =
     str ''Focus on communication and soft skills, especially around "Data work (pulling, cleaning, basic analysis)". Aim for ~3 real emails or updates this week using Communication Coach.''\<close>
    by (simp add: generateSkillsPath_def w) (simp add: str_def)
  have "0x4D \<in> set (str ''Modeling (Excel, valuations, scenarios)'')"
    by (simp add: str_def)
  moreover have \<open>0x4D \<notin> set (str ''Focus on communication and soft skills, especially around "Data work (pulling, cleaning, basic analysis)". Aim for ~3 real emails or updates this week using Communication Coach.'')\<close>
    by (simp add: str_def)
  ultimately have \<open>\<not> sublist (str ''Modeling (Excel, valuations, scenarios)'')
     (str ''Focus on communication and soft skills, especially around "Data work (pulling, cleaning, basic analysis)". Aim for ~3 real emails or updates this week using Communication Coach.'')\<close>
    using set_mono_sublist by blast
  with w d show ?thesis by simp
qed




text \<open>
  C6. When \<^verbatim>\<open>GROQ_API_KEY\<close> is not set (absent or empty), the handler answers 500 with
  an error message that says so, whatever the request is; it has not read the body
  and has not called the provider.
\<close>

theorem C6_missing_credential:
  assumes "key = None \<or> key = Some []"
  shows "status (fst (POST key gen req)) = 500 \<and>
    (\<exists>e. body (fst (POST key gen req)) = [(''error'', e)] \<and>
       prefix (str ''GROQ_API_KEY is not set'') e) \<and>
    ReqJson \<notin> set (snd (POST key gen req)) \<and>
    (\<forall>args. GenerateText args \<notin> set (snd (POST key gen req)))"
  by (simp add: POST_no_key [OF assms]) (simp add: str_def)

theorem C6_missing_credential_witness:
  "status (fst (POST None (\<lambda>_. Text (str ''ok'')) (JsonThrows OtherValue))) = 500 \<and>
   ReqJson \<notin> set (snd (POST None (\<lambda>_. Text (str ''ok'')) (JsonThrows OtherValue)))"
  using C6_missing_credential [where key = None and gen = "\<lambda>_. Text (str ''ok'')"
      and req = "JsonThrows OtherValue"]
  by simp

text \<open>
  C7. For a valid request (credential set, a non-empty mode, a non-empty message
  array), when the provider call of this request throws, the handler answers 500 and
  the body's error is the message of the thrown \<^verbatim>\<open>Error\<close>, or
  \<^verbatim>\<open>Unexpected server error\<close> when the thrown value is not an \<^verbatim>\<open>Error\<close>.
\<close>

theorem C7_provider_throws:
  assumes "key \<noteq> []" "mode b = Some m" "m \<noteq> []" "messages b = ArrayOf ms" "ms \<noteq> []"
    and "gen \<lparr>model = str ''llama-3.3-70b-versatile'',
              system = buildSystemPrompt m (case pmLens b of None \<Rightarrow> False | Some v \<Rightarrow> v)
                         (caseTag b),
              chatMessages = map (\<lambda>x. \<lparr>role = role x, content = content x\<rparr>) ms,
              temperature = 4 / 10,
              maxOutputTokens = 800\<rparr> = Throws err"
  shows "fst (POST (Some key) gen (JsonBody b)) =
    \<lparr>status = 500,
     body = [(''error'', case err of ErrorInstance msg \<Rightarrow> msg
                         | OtherValue \<Rightarrow> str ''Unexpected server error'')]\<rparr>"
  using POST_valid [OF assms(1-5) refl, of gen] assms(6) by simp

theorem C7_provider_throws_witness:
  "str ''key'' \<noteq> [] \<and> str ''safe_qa'' \<noteq> [] \<and>
   fst (POST (Some (str ''key'')) (\<lambda>_. Throws (ErrorInstance (str ''rate limit'')))
     (JsonBody \<lparr>mode = Some (str ''safe_qa''),
                messages = ArrayOf [\<lparr>role = user, content = str ''hi''\<rparr>],
                pmLens = None, caseTag = None\<rparr>)) =
   \<lparr>status = 500, body = [(''error'', str ''rate limit'')]\<rparr>"
  using C7_provider_throws [where key = "str ''key''" and m = "str ''safe_qa''"
      and ms = "[\<lparr>role = user, content = str ''hi''\<rparr>]"
      and gen = "\<lambda>_. Throws (ErrorInstance (str ''rate limit''))"
      and err = "ErrorInstance (str ''rate limit'')"
      and b = "\<lparr>mode = Some (str ''safe_qa''),
                messages = ArrayOf [\<lparr>role = user, content = str ''hi''\<rparr>],
                pmLens = None, caseTag = None\<rparr>"]
  by (simp add: str_def)

text \<open>
  C8. With a non-empty case label \<open>t\<close> the prompt contains the case sentence
  ``This conversation is part of an ongoing case the analyst calls \<open>t\<close> ...'' written
  out with that label between its quotes, and so the label itself. With no label
  (\<^verbatim>\<open>null\<close>, \<^verbatim>\<open>undefined\<close>) or the empty string the prompt is the three remaining
  segments joined by single line feeds, with no segment for the case, and it contains
  the case sentence for no label at all.
\<close>

theorem C8_case_context:
  "(t \<noteq> [] \<longrightarrow>
      sublist
        (str ''This conversation is part of an ongoing case the analyst calls '' @ [ldquo] @ t @
         [rdquo] @
         str ''. Speak as a consistent mentor who remembers the general theme, even if you don'' @
         [rsquo] @ str ''t recall every detail.'')
        (buildSystemPrompt m lens (Some t)) \<and>
      sublist t (buildSystemPrompt m lens (Some t))) \<and>
   (tag = None \<or> tag = Some [] \<longrightarrow>
      buildSystemPrompt m lens tag =
        join (str ''\<newline>'') [basePersona, modeInstructions m, pmLensInstructions lens] \<and>
      (\<forall>t'. \<not> sublist
         (str ''This conversation is part of an ongoing case the analyst calls '' @ [ldquo] @ t' @
          [rdquo] @
          str ''. Speak as a consistent mentor who remembers the general theme, even if you don'' @
          [rsquo] @ str ''t recall every detail.'')
         (buildSystemPrompt m lens tag)))"
proof -
  have spelled: "str ''This conversation is part of an ongoing case the analyst calls '' @ [ldquo] @ u @
         [rdquo] @
         str ''. Speak as a consistent mentor who remembers the general theme, even if you don'' @
         [rsquo] @ str ''t recall every detail.'' = caseContextSentence u" for u
    by (simp add: caseContextSentence_def caseContext_before_def caseContext_after_def)
  have label: "sublist u (caseContextSentence u)" for u
    unfolding caseContextSentence_def by (rule sublist_appendI)
  have 1: "sublist (caseContextSentence t) (buildSystemPrompt m lens (Some t))" if ne: "t \<noteq> []"
    unfolding buildSystemPrompt_label [OF ne] by (rule sublist_appendI)
  have 2: "sublist t (buildSystemPrompt m lens (Some t))" if ne: "t \<noteq> []"
    using label [of t] 1 [OF ne] by (rule sublist_order.order_trans)
  have 3: "buildSystemPrompt m lens tag =
      join (str ''\<newline>'') [basePersona, modeInstructions m, pmLensInstructions lens]"
    if "tag = None \<or> tag = Some []"
    using that by (simp add: buildSystemPrompt_no_label str_def)
  have 4: "\<not> sublist (caseContextSentence t') (buildSystemPrompt m lens tag)"
    if no: "tag = None \<or> tag = Some []" for t'
  proof
    assume "sublist (caseContextSentence t') (buildSystemPrompt m lens tag)"
    with caseContextSentence_Sp [of t']
    have "has_pair 0x53 0x70 (buildSystemPrompt m lens tag)"
      by (rule has_pair_mono)
    with no_label_no_Sp [OF no] show False by contradiction
  qed
  from 1 2 3 4 show ?thesis
    unfolding spelled by (intro conjI impI allI)
qed

theorem C8_case_context_witness:
  "str ''EV pitch'' \<noteq> [] \<and>
   sublist
     (str ''This conversation is part of an ongoing case the analyst calls '' @ [ldquo] @
      str ''EV pitch'' @ [rdquo] @
      str ''. Speak as a consistent mentor who remembers the general theme, even if you don'' @
      [rsquo] @ str ''t recall every detail.'')
     (buildSystemPrompt (str ''pm_simulator'') True (Some (str ''EV pitch''))) \<and>
   sublist (str ''EV pitch'')
     (buildSystemPrompt (str ''pm_simulator'') True (Some (str ''EV pitch''))) \<and>
   buildSystemPrompt (str ''pm_simulator'') True None =
     join (str ''\<newline>'')
       [basePersona, modeInstructions (str ''pm_simulator''), pmLensInstructions True] \<and>
   \<not> sublist
     (str ''This conversation is part of an ongoing case the analyst calls '' @ [ldquo] @
      str ''EV pitch'' @ [rdquo] @
      str ''. Speak as a consistent mentor who remembers the general theme, even if you don'' @
      [rsquo] @ str ''t recall every detail.'')
     (buildSystemPrompt (str ''pm_simulator'') True None)"
proof -
  let ?P = "buildSystemPrompt (str ''pm_simulator'') True (Some (str ''EV pitch''))"
  let ?N = "buildSystemPrompt (str ''pm_simulator'') True None"
  let ?S = "\<lambda>u. str ''This conversation is part of an ongoing case the analyst calls '' @ [ldquo] @
      u @ [rdquo] @
      str ''. Speak as a consistent mentor who remembers the general theme, even if you don'' @
      [rsquo] @ str ''t recall every detail.''"
  note c8 = C8_case_context [where t = "str ''EV pitch''" and m = "str ''pm_simulator''"
      and lens = True and tag = None]
  have ne: "str ''EV pitch'' \<noteq> []"
    by (simp add: str_def)
  from c8 have "str ''EV pitch'' \<noteq> [] \<longrightarrow>
      sublist (?S (str ''EV pitch'')) ?P \<and> sublist (str ''EV pitch'') ?P"
    by (rule conjunct1)
  with ne have 1: "sublist (?S (str ''EV pitch'')) ?P \<and> sublist (str ''EV pitch'') ?P"
    by (rule rev_mp)
  have "(None :: jsstring option) = None \<or> None = Some ([] :: jsstring)"
    by simp
  moreover from c8 have "(None :: jsstring option) = None \<or> None = Some ([] :: jsstring) \<longrightarrow>
      ?N = join (str ''\<newline>'')
          [basePersona, modeInstructions (str ''pm_simulator''), pmLensInstructions True] \<and>
      (\<forall>t'. \<not> sublist (?S t') ?N)"
    by (rule conjunct2)
  ultimately have 2: "?N = join (str ''\<newline>'')
          [basePersona, modeInstructions (str ''pm_simulator''), pmLensInstructions True] \<and>
      (\<forall>t'. \<not> sublist (?S t') ?N)"
    by (rule rev_mp)
  then have 3: "\<not> sublist (?S (str ''EV pitch'')) ?N"
    by (rule conjunct2 [THEN spec])
  from 2 have 4: "?N = join (str ''\<newline>'')
          [basePersona, modeInstructions (str ''pm_simulator''), pmLensInstructions True]"
    by (rule conjunct1)
  from 1 have 5: "sublist (?S (str ''EV pitch'')) ?P" and 6: "sublist (str ''EV pitch'') ?P"
    by (rule conjunct1, rule conjunct2)
  from ne 5 6 4 3 show ?thesis
    by (intro conjI)
qed

text \<open>
  C9. Every response of the handler has one of two shapes, and never both or neither:
  status 200 with a body whose only property is \<^verbatim>\<open>answer\<close>, or a status from 400 to
  599 with a body whose only property is \<^verbatim>\<open>error\<close>.
\<close>

theorem C9_response_shapes:
  "(let r = fst (POST key gen req) in
      ((\<exists>t. body r = [(''answer'', t)]) \<and> status r = 200) \<noteq>
      ((\<exists>e. body r = [(''error'', e)]) \<and> 400 \<le> status r \<and> status r < 600)) \<and>
   (map_of (body (fst (POST key gen req))) ''answer'' = None) \<noteq>
   (map_of (body (fst (POST key gen req))) ''error'' = None)"
proof (cases rule: POST_cases [where key = key and req = req])
  case no_key
  then show ?thesis by (simp add: POST_no_key)
next
  case (json_throws k err)
  then show ?thesis by (simp add: POST_json_throws)
next
  case (json_null k msg)
  then show ?thesis by (simp add: POST_json_null)
next
  case (bad_request k b)
  then show ?thesis by (simp add: POST_bad_request)
next
  case (valid k b m ms)
  then show ?thesis
    by (simp add: POST_valid [OF valid(2,4,5,6,7) refl] split: generate_outcome.splits)
qed

text \<open>
  C10. \<^verbatim>\<open>handleSend\<close> leaves the transcript of every mode other than the current one as
  it was, whatever the request's outcome, and the transcript of the current mode is
  only extended. The part that runs after the request has settled also leaves the
  other transcripts of the state it then finds as they are.
\<close>

theorem C10_handleSend_frame:
  assumes "m' \<noteq> currentMode s"
  shows "histories (handleSend s res) m' = histories s m' \<and>
    (\<exists>ext. (case histories (handleSend s res) (currentMode s) of None \<Rightarrow> [] | Some h \<Rightarrow> h) =
       (case histories s (currentMode s) of None \<Rightarrow> [] | Some h \<Rightarrow> h) @ ext) \<and>
    (m' \<noteq> closure_mode c \<longrightarrow>
       histories (handleSend_settle c res prev) m' = histories prev m')"
proof (cases "handleSend_begin s")
  case (Pair s' oc)
  show ?thesis
  proof (cases oc)
    case None
    with Pair have "handleSend s res = s"
      by (auto simp: handleSend_def handleSend_begin_def Let_def split: if_splits)
    then show ?thesis by (simp add: handleSend_settle_frame)
  next
    case (Some c')
    with Pair have b: "handleSend_begin s = (s', Some c')" by simp
    then have r: "handleSend s res = handleSend_settle c' res s'"
      by (simp add: handleSend_def)
    from b have cm: "closure_mode c' = currentMode s" by (rule handleSend_begin_closure)
    from handleSend_begin_frame [OF assms] b have 1: "histories s' m' = histories s m'" by simp
    from assms cm have "histories (handleSend_settle c' res s') m' = histories s' m'"
      by (simp add: handleSend_settle_frame)
    with 1 r have other: "histories (handleSend s res) m' = histories s m'" by simp
    from handleSend_begin_closure(3) [OF b] obtain msg where
      nh: "closure_newHistory c' =
        (case histories s (currentMode s) of None \<Rightarrow> [] | Some h \<Rightarrow> h) @ [msg]" by blast
    have own: "\<exists>ext. (case histories (handleSend s res) (currentMode s) of None \<Rightarrow> [] | Some h \<Rightarrow> h) =
       (case histories s (currentMode s) of None \<Rightarrow> [] | Some h \<Rightarrow> h) @ ext"
      using handleSend_settle_own [of c' res s'] handleSend_begin_closure(2) [OF b] nh cm r
      by (cases res) auto
    from other own show ?thesis by (simp add: handleSend_settle_frame)
  qed
qed

theorem C10_handleSend_frame_witness:
  "pm_simulator \<noteq> currentMode
     \<lparr>currentMode = safe_qa, histories = (\<lambda>_. Some []), input = str ''hello'',
      loading = False, errorMsg = [], skillsPath = None, interactionCount = 0,
      checkInPrompt = None\<rparr> \<and>
   histories (handleSend
     \<lparr>currentMode = safe_qa, histories = (\<lambda>_. Some []), input = str ''hello'',
      loading = False, errorMsg = [], skillsPath = None, interactionCount = 0,
      checkInPrompt = None\<rparr> (Ok (str ''hi there''))) pm_simulator = Some []"
  using C10_handleSend_frame [where m' = pm_simulator and res = "Ok (str ''hi there'')"
      and s = "\<lparr>currentMode = safe_qa, histories = (\<lambda>_. Some []), input = str ''hello'',
      loading = False, errorMsg = [], skillsPath = None, interactionCount = 0,
      checkInPrompt = None\<rparr>"]
  by simp

end
